theory Spec2Isabelle
  imports Main "HOL-Library.AList"
begin

section \<open>The rate limiter of server/auth.ts\<close>

text \<open>
  The module keeps one process-wide \<^verbatim>\<open>Map<string, RateLimitEntry>\<close>. A JavaScript
  \<^verbatim>\<open>Map\<close> iterates in insertion order and holds each key once, so the store is an
  association list: \<^verbatim>\<open>get\<close> is \<open>map_of\<close>, \<^verbatim>\<open>set\<close> is \<open>AList.update\<close> (an existing
  key keeps its place, a new key goes to the end) and \<^verbatim>\<open>delete\<close> is \<open>AList.delete\<close>.
  Timestamps are the integer milliseconds of \<^verbatim>\<open>Date.now()\<close>, passed in as \<open>now\<close>.
\<close>

record RateLimitEntry =
  attempts :: int
  lastAttempt :: int
  blockedUntil :: "int option"

type_synonym store = "(string \<times> RateLimitEntry) list"

record RateLimitResult =
  allowed :: bool
  retryAfter :: "int option"

definition MAX_ATTEMPTS :: int where
  "MAX_ATTEMPTS = 5"

definition WINDOW_MS :: int where
  "WINDOW_MS = 15 * 60 * 1000"

definition BLOCK_DURATION_MS :: int where
  "BLOCK_DURATION_MS = 30 * 60 * 1000"

text \<open>
  \<^verbatim>\<open>Math.ceil(x / 1000)\<close> on integer milliseconds, in integer arithmetic.
\<close>

definition ceil_div :: "int \<Rightarrow> int \<Rightarrow> int" where
  "ceil_div x d = - ((- x) div d)"

text \<open>
  The callback of \<^verbatim>\<open>rateLimitStore.forEach\<close> in \<^verbatim>\<open>cleanupRateLimitStore\<close>. The test
  \<^verbatim>\<open>entry.blockedUntil && ...\<close> is JavaScript truthiness: an absent field and the
  number 0 both count as not set.
\<close>

definition cleanup_entry :: "int \<Rightarrow> string \<times> RateLimitEntry \<Rightarrow> store \<Rightarrow> store" where
  "cleanup_entry now = (\<lambda>(key, entry) st.
     if (case blockedUntil entry of None \<Rightarrow> False | Some b \<Rightarrow> b \<noteq> 0 \<and> b < now)
     then AList.delete key st
     else if now - lastAttempt entry > WINDOW_MS
     then AList.delete key st
     else st)"

text \<open>
  \<^verbatim>\<open>forEach\<close> visits every entry of the map once; the callback deletes at most the
  entry it is visiting, so the entries visited are those present at the start.
\<close>

definition cleanupRateLimitStore :: "int \<Rightarrow> store \<Rightarrow> store" where
  "cleanupRateLimitStore now st = fold (cleanup_entry now) st st"

text \<open>The part of \<^verbatim>\<open>checkRateLimit\<close> after the "currently blocked" test.\<close>

definition check_unblocked ::
  "int \<Rightarrow> string \<Rightarrow> RateLimitEntry \<Rightarrow> store \<Rightarrow> RateLimitResult \<times> store" where
  "check_unblocked now ip entry st =
     (if now - lastAttempt entry > WINDOW_MS
      then (\<lparr>allowed = True, retryAfter = None\<rparr>, AList.delete ip st)
      else if attempts entry \<ge> MAX_ATTEMPTS
      then (\<lparr>allowed = False, retryAfter = Some (ceil_div BLOCK_DURATION_MS 1000)\<rparr>,
            AList.update ip (entry\<lparr>blockedUntil := Some (now + BLOCK_DURATION_MS)\<rparr>) st)
      else (\<lparr>allowed = True, retryAfter = None\<rparr>, st))"

definition checkRateLimit :: "int \<Rightarrow> string \<Rightarrow> store \<Rightarrow> RateLimitResult \<times> store" where
  "checkRateLimit now ip st =
     (case map_of st ip of
        None \<Rightarrow> (\<lparr>allowed = True, retryAfter = None\<rparr>, st)
      | Some entry \<Rightarrow>
          (case blockedUntil entry of
             None \<Rightarrow> check_unblocked now ip entry st
           | Some b \<Rightarrow>
               if b \<noteq> 0 \<and> b > now
               then (\<lparr>allowed = False, retryAfter = Some (ceil_div (b - now) 1000)\<rparr>, st)
               else check_unblocked now ip entry st))"

definition recordFailedAttempt :: "int \<Rightarrow> string \<Rightarrow> store \<Rightarrow> store" where
  "recordFailedAttempt now ip st =
     (case map_of st ip of
        None \<Rightarrow>
          AList.update ip \<lparr>attempts = 1, lastAttempt = now, blockedUntil = None\<rparr> st
      | Some entry \<Rightarrow>
          AList.update ip (entry\<lparr>attempts := attempts entry + 1, lastAttempt := now\<rparr>) st)"

definition resetRateLimit :: "string \<Rightarrow> store \<Rightarrow> store" where
  "resetRateLimit ip st = AList.delete ip st"

text \<open>
  Readings of an entry used to state the properties: \<open>currently_blocked\<close> is the first
  test of \<^verbatim>\<open>checkRateLimit\<close>, \<open>lockout_expired\<close> and \<open>window_passed\<close> are the two tests
  of the sweep (the second is also the window test of \<^verbatim>\<open>checkRateLimit\<close>). In both
  functions a \<open>blockedUntil\<close> counts as set when it is truthy: present and not 0.
\<close>

definition currently_blocked :: "int \<Rightarrow> RateLimitEntry \<Rightarrow> bool" where
  "currently_blocked now entry =
     (case blockedUntil entry of None \<Rightarrow> False | Some b \<Rightarrow> b \<noteq> 0 \<and> b > now)"

definition lockout_expired :: "int \<Rightarrow> RateLimitEntry \<Rightarrow> bool" where
  "lockout_expired now entry =
     (case blockedUntil entry of None \<Rightarrow> False | Some b \<Rightarrow> b \<noteq> 0 \<and> b < now)"

definition window_passed :: "int \<Rightarrow> RateLimitEntry \<Rightarrow> bool" where
  "window_passed now entry = (now - lastAttempt entry > WINDOW_MS)"

definition sweepable :: "int \<Rightarrow> RateLimitEntry \<Rightarrow> bool" where
  "sweepable now entry = (lockout_expired now entry \<or> window_passed now entry)"

definition swept_keys :: "int \<Rightarrow> store \<Rightarrow> string set" where
  "swept_keys now xs = set (map fst (filter (\<lambda>p. sweepable now (snd p)) xs))"

text \<open>
  The operations that reach the store, each with the clock reading it makes: the three
  exported functions and the timer-driven sweep. A reachable store is what a finite
  sequence of them leaves, starting from the empty map of a fresh process.
\<close>

datatype event =
  Check int string
| RecordFailure int string
| Reset string
| Sweep int

fun step :: "event \<Rightarrow> store \<Rightarrow> store" where
  "step (Check now ip) st = snd (checkRateLimit now ip st)"
| "step (RecordFailure now ip) st = recordFailedAttempt now ip st"
| "step (Reset ip) st = resetRateLimit ip st"
| "step (Sweep now) st = cleanupRateLimitStore now st"

definition run :: "event list \<Rightarrow> store" where
  "run evs = fold step evs []"

text \<open>
  The quantity the specification speaks of, as opposed to the counter the code stores:
  the failures of a client, among the events so far, that lie inside the window ending
  at \<open>now\<close>. It follows the specification's words and is used only to compare them with
  the stored \<open>attempts\<close>.
\<close>

fun failure_in_window :: "int \<Rightarrow> string \<Rightarrow> event \<Rightarrow> bool" where
  "failure_in_window now ip (RecordFailure t k) = (k = ip \<and> now - t \<le> WINDOW_MS)"
| "failure_in_window now ip (Check t k) = False"
| "failure_in_window now ip (Reset k) = False"
| "failure_in_window now ip (Sweep t) = False"

definition failures_in_window :: "int \<Rightarrow> string \<Rightarrow> event list \<Rightarrow> int" where
  "failures_in_window now ip evs = int (length (filter (failure_in_window now ip) evs))"


section \<open>The credential verifier of server/auth.ts\<close>

text \<open>
  The three variables of \<^verbatim>\<open>process.env\<close> that the module reads; a variable that is not
  set reads as \<^verbatim>\<open>undefined\<close>.
\<close>

record process_env =
  ADMIN_PASSWORD_HASH :: "string option"
  NODE_ENV :: "string option"
  ADMIN_PASSWORD :: "string option"

text \<open>What \<^verbatim>\<open>console.log\<close> and \<^verbatim>\<open>console.error\<close> have written, oldest line first.\<close>

datatype console_line = ConsoleLog string | ConsoleError string

text \<open>
  An \<^verbatim>\<open>async\<close> function returns a promise: it rejects with an error (\<open>Inl\<close>, the
  message) or resolves with a value (\<open>Inr\<close>). Every call in the module is awaited at
  once, so a promise is the outcome of the call.
\<close>

type_synonym 'a promise = "string + 'a"

text \<open>
  The bcrypt package is not part of the repository and is a parameter of the model:
  \<^verbatim>\<open>bcrypt.hash(data, rounds)\<close> salts from the library's own random source, whose
  state is the first argument here, and \<^verbatim>\<open>bcrypt.compare(data, hash)\<close> reads no state.
  Either may reject.
\<close>

record bcrypt =
  bcrypt_hash :: "nat \<Rightarrow> string \<Rightarrow> nat \<Rightarrow> string promise"
  bcrypt_compare :: "string \<Rightarrow> string \<Rightarrow> bool promise"

text \<open>
  Everything the module can change: its rate-limit map, the console, and the random
  source that hashing draws from.
\<close>

record world =
  rateLimitStore :: store
  console :: "console_line list"
  entropy :: nat

definition console_error :: "string \<Rightarrow> world \<Rightarrow> world" where
  "console_error msg w = w\<lparr>console := console w @ [ConsoleError msg]\<rparr>"

definition console_log :: "string \<Rightarrow> world \<Rightarrow> world" where
  "console_log msg w = w\<lparr>console := console w @ [ConsoleLog msg]\<rparr>"

text \<open>Truthiness of an environment variable: set and not the empty string.\<close>

definition truthy :: "string option \<Rightarrow> bool" where
  "truthy v = (case v of None \<Rightarrow> False | Some s \<Rightarrow> s \<noteq> [])"

text \<open>
  \<^verbatim>\<open>verifyPassword\<close>. The test \<^verbatim>\<open>!passwordHash\<close> is before the \<^verbatim>\<open>try\<close>; the
  \<^verbatim>\<open>catch\<close> turns a rejection of \<^verbatim>\<open>bcrypt.compare\<close> into \<^verbatim>\<open>false\<close> and an error line.
\<close>

definition verifyPassword ::
  "bcrypt \<Rightarrow> process_env \<Rightarrow> string \<Rightarrow> world \<Rightarrow> bool promise \<times> world" where
  "verifyPassword lib env password w =
     (case ADMIN_PASSWORD_HASH env of
        None \<Rightarrow>
          (Inr False, console_error ''ADMIN_PASSWORD_HASH not configured in environment'' w)
      | Some passwordHash \<Rightarrow>
          if passwordHash = []
          then (Inr False, console_error ''ADMIN_PASSWORD_HASH not configured in environment'' w)
          else if NODE_ENV env = Some ''development'' \<and> truthy (ADMIN_PASSWORD env)
                  \<and> Some password = ADMIN_PASSWORD env
          then (Inr True, w)
          else (case bcrypt_compare lib password passwordHash of
                  Inr matches \<Rightarrow> (Inr matches, w)
                | Inl err \<Rightarrow>
                    (Inr False, console_error (''Password verification error: '' @ err) w)))"

definition generatePasswordHash :: "bcrypt \<Rightarrow> string \<Rightarrow> world \<Rightarrow> string promise \<times> world" where
  "generatePasswordHash lib password w =
     (bcrypt_hash lib (entropy w) password 10, w\<lparr>entropy := Suc (entropy w)\<rparr>)"

text \<open>
  \<^verbatim>\<open>changePassword\<close>. Neither \<^verbatim>\<open>await\<close> is inside a \<^verbatim>\<open>try\<close>, so a rejection
  is passed on to the caller.
\<close>

definition changePassword ::
  "bcrypt \<Rightarrow> process_env \<Rightarrow> string \<Rightarrow> string \<Rightarrow> world \<Rightarrow> bool promise \<times> world" where
  "changePassword lib env currentPassword newPassword w =
     (case verifyPassword lib env currentPassword w of
        (Inl err, w1) \<Rightarrow> (Inl err, w1)
      | (Inr isValid, w1) \<Rightarrow>
          if \<not> isValid then (Inr False, w1)
          else (case generatePasswordHash lib newPassword w1 of
                  (Inl err, w2) \<Rightarrow> (Inl err, w2)
                | (Inr newHash, w2) \<Rightarrow>
                    (Inr True,
                     console_log newHash
                       (console_log ''New password hash (update in .env.production):'' w2))))"

text \<open>
  The contract of bcrypt that the module relies on: a hash that \<^verbatim>\<open>bcrypt.hash\<close>
  resolves with is a non-empty string which \<^verbatim>\<open>bcrypt.compare\<close> accepts for the
  password it was made from, whatever the salt.
\<close>

definition bcrypt_contract :: "bcrypt \<Rightarrow> bool" where
  "bcrypt_contract lib =
     (\<forall>seed password rounds h. bcrypt_hash lib seed password rounds = Inr h \<longrightarrow>
        h \<noteq> [] \<and> bcrypt_compare lib password h = Inr True)"

text \<open>
  Two small instances of the library interface for concrete evaluation: one that meets
  the contract, with a salt that differs from call to call, and one whose calls all
  reject.
\<close>

definition toy_salt :: "nat \<Rightarrow> string" where
  "toy_salt seed = ''$2b$'' @ replicate (Suc seed) (CHR ''s'') @ ''$''"

definition toy_bcrypt :: bcrypt where
  "toy_bcrypt =
     \<lparr>bcrypt_hash = (\<lambda>seed password rounds. Inr (toy_salt seed @ password)),
      bcrypt_compare = (\<lambda>password h.
        Inr (length password < length h \<and> drop (length h - length password) h = password))\<rparr>"

definition failing_bcrypt :: bcrypt where
  "failing_bcrypt =
     \<lparr>bcrypt_hash = (\<lambda>seed password rounds. Inl ''hash failed''),
      bcrypt_compare = (\<lambda>password h. Inl ''compare failed'')\<rparr>"

section \<open>Properties of the rate limiter\<close>

lemma ceil_div_block: "ceil_div BLOCK_DURATION_MS 1000 = 1800"
  by (simp add: ceil_div_def BLOCK_DURATION_MS_def)

lemma ceil_div_pos: "0 < x \<Longrightarrow> 1 \<le> ceil_div x 1000"
proof -
  assume "0 < x"
  then have "(- x) div 1000 < 0" by simp
  then show ?thesis by (simp add: ceil_div_def)
qed

lemma check_unblocked_result:
  "fst (check_unblocked now ip entry st) = \<lparr>allowed = True, retryAfter = None\<rparr> \<or>
   fst (check_unblocked now ip entry st) = \<lparr>allowed = False, retryAfter = Some 1800\<rparr>"
  by (simp add: check_unblocked_def ceil_div_block)

subsection \<open>The sweep as a filter\<close>

lemma cleanup_entry_sweepable:
  "cleanup_entry now (key, entry) st = (if sweepable now entry then AList.delete key st else st)"
  by (simp add: cleanup_entry_def sweepable_def lockout_expired_def window_passed_def)

lemma swept_keys_Cons:
  "swept_keys now ((key, entry) # xs) =
     (if sweepable now entry then insert key (swept_keys now xs) else swept_keys now xs)"
  by (simp add: swept_keys_def)

lemma filter_delete_keys:
  "filter (\<lambda>p. fst p \<notin> D) (AList.delete key st) = filter (\<lambda>p. fst p \<notin> insert key D) st"
  by (induction st) (auto simp: AList.delete_eq)

lemma fold_cleanup_filter:
  "fold (cleanup_entry now) xs st = filter (\<lambda>p. fst p \<notin> swept_keys now xs) st"
proof (induction xs arbitrary: st)
  case Nil
  then show ?case by (simp add: swept_keys_def)
next
  case (Cons x xs)
  obtain key entry where x: "x = (key, entry)" by (cases x)
  show ?case
    by (simp add: Cons.IH x cleanup_entry_sweepable swept_keys_Cons filter_delete_keys)
qed

lemma swept_keys_distinct:
  assumes "distinct (map fst st)" and "(k, e) \<in> set st"
  shows "k \<in> swept_keys now st \<longleftrightarrow> sweepable now e"
proof
  assume "k \<in> swept_keys now st"
  then obtain e' where e': "(k, e') \<in> set st" "sweepable now e'"
    unfolding swept_keys_def by auto
  from assms(1) e'(1) assms(2) have "e' = e" by (rule eq_key_imp_eq_value)
  with e'(2) show "sweepable now e" by simp
next
  assume "sweepable now e"
  with assms(2) show "k \<in> swept_keys now st"
    unfolding swept_keys_def by force
qed

lemma cleanup_filter:
  assumes "distinct (map fst st)"
  shows "cleanupRateLimitStore now st = filter (\<lambda>p. \<not> sweepable now (snd p)) st"
proof -
  have "(fst p \<notin> swept_keys now st) = (\<not> sweepable now (snd p))" if "p \<in> set st" for p
    using swept_keys_distinct [OF assms, of "fst p" "snd p" now] that by simp
  then show ?thesis
    unfolding cleanupRateLimitStore_def fold_cleanup_filter
    by (rule filter_cong [OF refl])
qed

lemma map_of_filter_keys:
  "map_of (filter (\<lambda>p. fst p \<notin> D) xs) k = (if k \<in> D then None else map_of xs k)"
  by (induction xs) auto

lemma map_of_cleanup:
  "map_of (cleanupRateLimitStore now st) k =
     (if k \<in> swept_keys now st then None else map_of st k)"
  by (simp add: cleanupRateLimitStore_def fold_cleanup_filter map_of_filter_keys)

subsection \<open>The two outcomes of the lockout test\<close>

lemma checkRateLimit_unblocked:
  "map_of st ip = Some entry \<Longrightarrow> \<not> currently_blocked now entry \<Longrightarrow>
   checkRateLimit now ip st = check_unblocked now ip entry st"
  by (auto simp: checkRateLimit_def currently_blocked_def split: option.splits)

lemma checkRateLimit_blocked:
  "map_of st ip = Some entry \<Longrightarrow> blockedUntil entry = Some b \<Longrightarrow> b \<noteq> 0 \<Longrightarrow> now < b \<Longrightarrow>
   checkRateLimit now ip st = (\<lparr>allowed = False, retryAfter = Some (ceil_div (b - now) 1000)\<rparr>, st)"
  by (simp add: checkRateLimit_def)

subsection \<open>What each operation does to one key\<close>

lemma map_of_check_other:
  "k \<noteq> ip \<Longrightarrow> map_of (snd (checkRateLimit now ip st)) k = map_of st k"
  by (auto simp: checkRateLimit_def check_unblocked_def update_conv' delete_conv'
      split: option.splits)

lemma map_of_check_same:
  assumes "map_of st ip = Some e" and "map_of (snd (checkRateLimit now ip st)) ip = Some e'"
  shows "e' = e \<or>
         (\<not> currently_blocked now e \<and> \<not> window_passed now e \<and> MAX_ATTEMPTS \<le> attempts e \<and>
          e' = e\<lparr>blockedUntil := Some (now + BLOCK_DURATION_MS)\<rparr>)"
proof (cases "currently_blocked now e")
  case True
  then obtain b where b: "blockedUntil e = Some b" "b \<noteq> 0" "now < b"
    by (auto simp: currently_blocked_def split: option.splits)
  from assms show ?thesis
    by (simp add: checkRateLimit_blocked [OF assms(1) b])
next
  case False
  from assms(2) show ?thesis
    unfolding checkRateLimit_unblocked [OF assms(1) False]
    using assms(1) False
    by (auto simp: check_unblocked_def window_passed_def update_conv' delete_conv'
        split: if_splits)
qed

lemma map_of_record:
  "map_of (recordFailedAttempt now ip st) k =
     (if k = ip
      then (case map_of st ip of
              None \<Rightarrow> Some \<lparr>attempts = 1, lastAttempt = now, blockedUntil = None\<rparr>
            | Some e \<Rightarrow> Some (e\<lparr>attempts := attempts e + 1, lastAttempt := now\<rparr>))
      else map_of st k)"
  by (simp add: recordFailedAttempt_def update_conv' split: option.splits)

lemma map_of_reset:
  "map_of (resetRateLimit ip st) k = (if k = ip then None else map_of st k)"
  by (simp add: resetRateLimit_def delete_conv')

lemma step_existing:
  assumes "map_of st k = Some e" and "map_of (step ev st) k = Some e'"
  shows "e' = e
         \<or> (\<exists>now. ev = Check now k \<and> \<not> currently_blocked now e \<and> \<not> window_passed now e \<and>
                  MAX_ATTEMPTS \<le> attempts e \<and>
                  e' = e\<lparr>blockedUntil := Some (now + BLOCK_DURATION_MS)\<rparr>)
         \<or> (\<exists>now. ev = RecordFailure now k \<and>
                  e' = e\<lparr>attempts := attempts e + 1, lastAttempt := now\<rparr>)"
proof (cases ev)
  case (Check now ip)
  show ?thesis
  proof (cases "k = ip")
    case True
    with assms Check map_of_check_same [of st ip e now e'] show ?thesis by auto
  next
    case False
    with assms Check show ?thesis by (simp add: map_of_check_other)
  qed
next
  case (RecordFailure now ip)
  with assms show ?thesis by (auto simp: map_of_record split: if_splits)
next
  case (Reset ip)
  with assms show ?thesis by (auto simp: map_of_reset split: if_splits)
next
  case (Sweep now)
  with assms show ?thesis by (auto simp: map_of_cleanup split: if_splits)
qed


subsection \<open>The invariant of the reachable stores\<close>




subsection \<open>The claims about the rate limiter\<close>

lemma run_five_failures:
  "run [RecordFailure 1000 ''A'', RecordFailure 1500 ''B'', RecordFailure 2000 ''A'',
        RecordFailure 3000 ''A'', RecordFailure 4000 ''A'', RecordFailure 5000 ''A''] =
   [(''A'', \<lparr>attempts = 5, lastAttempt = 5000, blockedUntil = None\<rparr>),
    (''B'', \<lparr>attempts = 1, lastAttempt = 1500, blockedUntil = None\<rparr>)]"
  by (simp add: run_def recordFailedAttempt_def)

text \<open>
  C1. Lazy lockout. When the client's entry is not currently blocked, its last attempt is
  within the window and its attempts have reached \<open>MAX_ATTEMPTS\<close> (5), \<^verbatim>\<open>checkRateLimit\<close>
  stores \<open>now + BLOCK_DURATION_MS\<close> as the entry's \<open>blockedUntil\<close>, leaves the rest of the
  entry as it was, and returns not allowed with a retry time of 1800 seconds, which is
  \<open>BLOCK_DURATION_MS\<close> in seconds.
\<close>

theorem lazy_lockout:
  assumes "map_of st ip = Some entry"
    and "\<not> currently_blocked now entry"
    and "\<not> window_passed now entry"
    and "MAX_ATTEMPTS \<le> attempts entry"
  shows "checkRateLimit now ip st =
           (\<lparr>allowed = False, retryAfter = Some 1800\<rparr>,
            AList.update ip (entry\<lparr>blockedUntil := Some (now + BLOCK_DURATION_MS)\<rparr>) st)
         \<and> map_of (snd (checkRateLimit now ip st)) ip =
             Some (entry\<lparr>blockedUntil := Some (now + BLOCK_DURATION_MS)\<rparr>)
         \<and> BLOCK_DURATION_MS = 1800 * 1000"
proof -
  have "checkRateLimit now ip st = check_unblocked now ip entry st"
    using assms(1,2) by (rule checkRateLimit_unblocked)
  with assms(3,4) show ?thesis
    by (simp add: check_unblocked_def window_passed_def ceil_div_block update_conv')
       (simp add: BLOCK_DURATION_MS_def)
qed

theorem lazy_lockout_witness:
  "checkRateLimit 6000 ''A''
     (run [RecordFailure 1000 ''A'', RecordFailure 1500 ''B'', RecordFailure 2000 ''A'',
           RecordFailure 3000 ''A'', RecordFailure 4000 ''A'', RecordFailure 5000 ''A'']) =
   (\<lparr>allowed = False, retryAfter = Some 1800\<rparr>,
    [(''A'', \<lparr>attempts = 5, lastAttempt = 5000, blockedUntil = Some 1806000\<rparr>),
     (''B'', \<lparr>attempts = 1, lastAttempt = 1500, blockedUntil = None\<rparr>)])"
proof -
  let ?st = "[(''A'', \<lparr>attempts = 5, lastAttempt = 5000, blockedUntil = None\<rparr>),
              (''B'', \<lparr>attempts = 1, lastAttempt = 1500, blockedUntil = None\<rparr>)]"
  let ?e = "\<lparr>attempts = 5, lastAttempt = 5000, blockedUntil = None\<rparr>"
  have h1: "map_of ?st ''A'' = Some ?e" by simp
  have h2: "\<not> currently_blocked 6000 ?e" by (simp add: currently_blocked_def)
  have h3: "\<not> window_passed 6000 ?e" by (simp add: window_passed_def WINDOW_MS_def)
  have h4: "MAX_ATTEMPTS \<le> attempts ?e" by (simp add: MAX_ATTEMPTS_def)
  from lazy_lockout [OF h1 h2 h3 h4] show ?thesis
    by (simp add: run_five_failures BLOCK_DURATION_MS_def)
qed





text \<open>
  The stored counter and the failures inside the window also part without a lockout in
  between: five failures 14 minutes apart, each after a check, never let a whole window
  pass, so the counter reaches 5 and the next check denies, with two failures inside
  the last 15 minutes.
\<close>

lemma counter_outlives_window:
  "failures_in_window 3360000 ''A''
     [Check 0 ''A'', RecordFailure 0 ''A'', Check 840000 ''A'', RecordFailure 840000 ''A'',
      Check 1680000 ''A'', RecordFailure 1680000 ''A'', Check 2520000 ''A'',
      RecordFailure 2520000 ''A'', Check 3360000 ''A'', RecordFailure 3360000 ''A''] = 2
   \<and> fst (checkRateLimit 3360000 ''A''
        (run [Check 0 ''A'', RecordFailure 0 ''A'', Check 840000 ''A'', RecordFailure 840000 ''A'',
              Check 1680000 ''A'', RecordFailure 1680000 ''A'', Check 2520000 ''A'',
              RecordFailure 2520000 ''A'', Check 3360000 ''A'', RecordFailure 3360000 ''A''])) =
       \<lparr>allowed = False, retryAfter = Some 1800\<rparr>"
  by (simp add: run_def failures_in_window_def recordFailedAttempt_def checkRateLimit_def
      check_unblocked_def ceil_div_def WINDOW_MS_def MAX_ATTEMPTS_def BLOCK_DURATION_MS_def)

text \<open>
  C6. For every operation on the store and every client whose entry exists before and
  after it: a \<open>blockedUntil\<close> that was present is still present, and a \<open>blockedUntil\<close>
  that was set (truthy, as the code tests it) is not lowered. \<^verbatim>\<open>recordFailedAttempt\<close>
  leaves the field of an existing entry as it was and creates a new entry without it.
\<close>

theorem blockedUntil_monotone:
  "(\<forall>e e'. map_of st k = Some e \<and> map_of (step ev st) k = Some e' \<longrightarrow>
      (blockedUntil e \<noteq> None \<longrightarrow> blockedUntil e' \<noteq> None) \<and>
      (\<forall>b b'. blockedUntil e = Some b \<and> b \<noteq> 0 \<and> blockedUntil e' = Some b' \<longrightarrow> b \<le> b'))
   \<and> (\<forall>e'. map_of (recordFailedAttempt now ip st) k = Some e' \<longrightarrow>
         blockedUntil e' = (case map_of st k of None \<Rightarrow> None | Some e \<Rightarrow> blockedUntil e))"
proof (intro conjI allI impI; (elim conjE)?)
  fix e e'
  assume a: "map_of st k = Some e" "map_of (step ev st) k = Some e'"
    and b: "blockedUntil e \<noteq> None"
  from step_existing [OF a] b show "blockedUntil e' \<noteq> None" by auto
next
  fix e e' b b'
  assume a: "map_of st k = Some e" "map_of (step ev st) k = Some e'"
    and b: "blockedUntil e = Some b" "b \<noteq> 0" "blockedUntil e' = Some b'"
  from step_existing [OF a] show "b \<le> b'"
  proof (elim disjE exE conjE)
    assume "e' = e"
    with b show ?thesis by simp
  next
    fix t assume "\<not> currently_blocked t e"
      and "e' = e\<lparr>blockedUntil := Some (t + BLOCK_DURATION_MS)\<rparr>"
    with b show ?thesis by (simp add: currently_blocked_def BLOCK_DURATION_MS_def)
  next
    fix t assume "e' = e\<lparr>attempts := attempts e + 1, lastAttempt := t\<rparr>"
    with b show ?thesis by simp
  qed
next
  fix e'
  assume "map_of (recordFailedAttempt now ip st) k = Some e'"
  then show "blockedUntil e' = (case map_of st k of None \<Rightarrow> None | Some e \<Rightarrow> blockedUntil e)"
    by (auto simp: map_of_record split: if_splits option.splits)
qed

theorem blockedUntil_monotone_witness:
  "map_of [(''A'', \<lparr>attempts = 5, lastAttempt = 1000, blockedUntil = Some 2000\<rparr>)] ''A'' =
     Some \<lparr>attempts = 5, lastAttempt = 1000, blockedUntil = Some 2000\<rparr>
   \<and> map_of (step (Check 3000 ''A'')
        [(''A'', \<lparr>attempts = 5, lastAttempt = 1000, blockedUntil = Some 2000\<rparr>)]) ''A'' =
     Some \<lparr>attempts = 5, lastAttempt = 1000, blockedUntil = Some 1803000\<rparr>
   \<and> (2000::int) \<noteq> 0 \<and> (2000::int) \<le> 1803000
   \<and> map_of (recordFailedAttempt 3000 ''A''
        [(''A'', \<lparr>attempts = 5, lastAttempt = 1000, blockedUntil = Some 2000\<rparr>)]) ''A'' =
     Some \<lparr>attempts = 6, lastAttempt = 3000, blockedUntil = Some 2000\<rparr>"
  using blockedUntil_monotone [of
      "[(''A'', \<lparr>attempts = 5, lastAttempt = 1000, blockedUntil = Some 2000\<rparr>)]" "''A''"
      "Check 3000 ''A''" 3000 "''A''"]
  by (simp add: checkRateLimit_def check_unblocked_def recordFailedAttempt_def
      WINDOW_MS_def MAX_ATTEMPTS_def BLOCK_DURATION_MS_def)

text \<open>
  C7. Stale window. When the entry's last attempt is older than the window and the entry
  is not currently blocked, \<^verbatim>\<open>checkRateLimit\<close> deletes the entry and returns allowed; a
  failure recorded on the store that check leaves starts a new entry with \<open>attempts = 1\<close>.
\<close>

theorem stale_window_restart:
  assumes "map_of st ip = Some entry"
    and "\<not> currently_blocked now entry"
    and "window_passed now entry"
  shows "checkRateLimit now ip st = (\<lparr>allowed = True, retryAfter = None\<rparr>, AList.delete ip st)
         \<and> map_of (snd (checkRateLimit now ip st)) ip = None
         \<and> map_of (recordFailedAttempt now' ip (snd (checkRateLimit now ip st))) ip =
             Some \<lparr>attempts = 1, lastAttempt = now', blockedUntil = None\<rparr>"
proof -
  have "checkRateLimit now ip st = check_unblocked now ip entry st"
    using assms(1,2) by (rule checkRateLimit_unblocked)
  with assms(3) have c: "checkRateLimit now ip st =
      (\<lparr>allowed = True, retryAfter = None\<rparr>, AList.delete ip st)"
    by (simp add: check_unblocked_def window_passed_def)
  have d: "map_of (AList.delete ip st) ip = None"
    by (simp add: delete_conv')
  show ?thesis
    by (simp add: c d recordFailedAttempt_def update_conv')
qed

theorem stale_window_restart_witness:
  "checkRateLimit 900001 ''A''
     [(''A'', \<lparr>attempts = 4, lastAttempt = 0, blockedUntil = None\<rparr>)] =
     (\<lparr>allowed = True, retryAfter = None\<rparr>, [])
   \<and> recordFailedAttempt 900002 ''A''
       (snd (checkRateLimit 900001 ''A''
          [(''A'', \<lparr>attempts = 4, lastAttempt = 0, blockedUntil = None\<rparr>)])) =
     [(''A'', \<lparr>attempts = 1, lastAttempt = 900002, blockedUntil = None\<rparr>)]"
proof -
  let ?e = "\<lparr>attempts = 4, lastAttempt = 0, blockedUntil = None\<rparr>"
  have h1: "map_of [(''A'', ?e)] ''A'' = Some ?e" by simp
  have h2: "\<not> currently_blocked 900001 ?e" by (simp add: currently_blocked_def)
  have h3: "window_passed 900001 ?e" by (simp add: window_passed_def WINDOW_MS_def)
  from stale_window_restart [OF h1 h2 h3, of 900002] show ?thesis
    by (simp add: recordFailedAttempt_def)
qed

text \<open>
  C8. \<^verbatim>\<open>resetRateLimit\<close> removes the client's entry whatever the store holds, also an
  entry with an active lockout, and a \<^verbatim>\<open>checkRateLimit\<close> for that client right after
  it returns allowed (with no retry time) and leaves the store as the reset left it.
\<close>

theorem reset_clears_lockout:
  "map_of (resetRateLimit ip st) ip = None \<and>
   (\<forall>k. k \<noteq> ip \<longrightarrow> map_of (resetRateLimit ip st) k = map_of st k) \<and>
   checkRateLimit now ip (resetRateLimit ip st) =
     (\<lparr>allowed = True, retryAfter = None\<rparr>, resetRateLimit ip st)"
  by (simp add: resetRateLimit_def checkRateLimit_def delete_conv')

theorem reset_clears_lockout_witness:
  "checkRateLimit 1000 ''A''
     (resetRateLimit ''A''
        [(''A'', \<lparr>attempts = 5, lastAttempt = 0, blockedUntil = Some 1800500\<rparr>),
         (''B'', \<lparr>attempts = 1, lastAttempt = 10, blockedUntil = None\<rparr>)]) =
     (\<lparr>allowed = True, retryAfter = None\<rparr>,
      [(''B'', \<lparr>attempts = 1, lastAttempt = 10, blockedUntil = None\<rparr>)])
   \<and> \<not> allowed (fst (checkRateLimit 1000 ''A''
        [(''A'', \<lparr>attempts = 5, lastAttempt = 0, blockedUntil = Some 1800500\<rparr>),
         (''B'', \<lparr>attempts = 1, lastAttempt = 10, blockedUntil = None\<rparr>)]))
   \<and> ''B'' \<noteq> ''A''
   \<and> map_of (resetRateLimit ''A''
        [(''A'', \<lparr>attempts = 5, lastAttempt = 0, blockedUntil = Some 1800500\<rparr>),
         (''B'', \<lparr>attempts = 1, lastAttempt = 10, blockedUntil = None\<rparr>)]) ''B'' =
       Some \<lparr>attempts = 1, lastAttempt = 10, blockedUntil = None\<rparr>"
  using reset_clears_lockout [of "''A''"
      "[(''A'', \<lparr>attempts = 5, lastAttempt = 0, blockedUntil = Some 1800500\<rparr>),
        (''B'', \<lparr>attempts = 1, lastAttempt = 10, blockedUntil = None\<rparr>)]" 1000]
  by (simp add: resetRateLimit_def checkRateLimit_def)

text \<open>
  C9. One run of the sweep over a store that holds each key once removes exactly the
  entries whose \<open>blockedUntil\<close> is set and lies before \<open>now\<close>, or whose last attempt is
  older than the window (also when a lockout is still active), and keeps every other
  entry unchanged and in place.
\<close>

theorem sweep_exact:
  assumes "distinct (map fst st)"
  shows "cleanupRateLimitStore now st = filter (\<lambda>p. \<not> sweepable now (snd p)) st
         \<and> (\<forall>k e. map_of st k = Some e \<longrightarrow>
               map_of (cleanupRateLimitStore now st) k =
                 (if lockout_expired now e \<or> window_passed now e then None else Some e))
         \<and> (\<forall>k. map_of st k = None \<longrightarrow> map_of (cleanupRateLimitStore now st) k = None)"
proof (intro conjI allI impI)
  show "cleanupRateLimitStore now st = filter (\<lambda>p. \<not> sweepable now (snd p)) st"
    using assms by (rule cleanup_filter)
next
  fix k e assume "map_of st k = Some e"
  then have "(k, e) \<in> set st" by (rule map_of_SomeD)
  with assms have "k \<in> swept_keys now st \<longleftrightarrow> sweepable now e"
    by (rule swept_keys_distinct)
  then show "map_of (cleanupRateLimitStore now st) k =
      (if lockout_expired now e \<or> window_passed now e then None else Some e)"
    using \<open>map_of st k = Some e\<close> by (simp add: map_of_cleanup sweepable_def)
next
  fix k assume "map_of st k = None"
  then show "map_of (cleanupRateLimitStore now st) k = None"
    by (simp add: map_of_cleanup)
qed

theorem sweep_exact_witness:
  "cleanupRateLimitStore 2000000
     [(''expired'', \<lparr>attempts = 5, lastAttempt = 1900000, blockedUntil = Some 1999999\<rparr>),
      (''stale'', \<lparr>attempts = 1, lastAttempt = 0, blockedUntil = None\<rparr>),
      (''stale-locked'', \<lparr>attempts = 5, lastAttempt = 1000000, blockedUntil = Some 2800000\<rparr>),
      (''fresh'', \<lparr>attempts = 2, lastAttempt = 1100000, blockedUntil = None\<rparr>),
      (''locked'', \<lparr>attempts = 5, lastAttempt = 1900000, blockedUntil = Some 3700000\<rparr>)] =
     [(''fresh'', \<lparr>attempts = 2, lastAttempt = 1100000, blockedUntil = None\<rparr>),
      (''locked'', \<lparr>attempts = 5, lastAttempt = 1900000, blockedUntil = Some 3700000\<rparr>)]"
proof -
  let ?st = "[(''expired'', \<lparr>attempts = 5, lastAttempt = 1900000, blockedUntil = Some 1999999\<rparr>),
      (''stale'', \<lparr>attempts = 1, lastAttempt = 0, blockedUntil = None\<rparr>),
      (''stale-locked'', \<lparr>attempts = 5, lastAttempt = 1000000, blockedUntil = Some 2800000\<rparr>),
      (''fresh'', \<lparr>attempts = 2, lastAttempt = 1100000, blockedUntil = None\<rparr>),
      (''locked'', \<lparr>attempts = 5, lastAttempt = 1900000, blockedUntil = Some 3700000\<rparr>)]"
  have h: "distinct (map fst ?st)" by simp
  from sweep_exact [OF h, of 2000000] show ?thesis
    by (simp add: sweepable_def lockout_expired_def window_passed_def WINDOW_MS_def)
qed

text \<open>
  C10. Whenever \<^verbatim>\<open>checkRateLimit\<close> returns not allowed, \<open>retryAfter\<close> is present and at
  least 1; whenever it returns allowed, there is no \<open>retryAfter\<close>.
\<close>

theorem retryAfter_shape:
  "(\<not> allowed (fst (checkRateLimit now ip st)) \<longrightarrow>
      (\<exists>n. retryAfter (fst (checkRateLimit now ip st)) = Some n \<and> 1 \<le> n))
   \<and> (allowed (fst (checkRateLimit now ip st)) \<longrightarrow>
        retryAfter (fst (checkRateLimit now ip st)) = None)"
proof (cases "map_of st ip")
  case None
  then show ?thesis by (simp add: checkRateLimit_def)
next
  case (Some entry)
  show ?thesis
  proof (cases "currently_blocked now entry")
    case True
    then obtain b where b: "blockedUntil entry = Some b" "b \<noteq> 0" "now < b"
      by (auto simp: currently_blocked_def split: option.splits)
    from b(3) have "1 \<le> ceil_div (b - now) 1000"
      by (intro ceil_div_pos) simp
    then show ?thesis
      by (simp add: checkRateLimit_blocked [OF Some b])
  next
    case False
    show ?thesis
      using check_unblocked_result [of now ip entry st]
      by (auto simp: checkRateLimit_unblocked [OF Some False])
  qed
qed

theorem retryAfter_shape_witness:
  "\<not> allowed (fst (checkRateLimit 1000 ''A''
        [(''A'', \<lparr>attempts = 5, lastAttempt = 0, blockedUntil = Some 2500\<rparr>)]))
   \<and> retryAfter (fst (checkRateLimit 1000 ''A''
        [(''A'', \<lparr>attempts = 5, lastAttempt = 0, blockedUntil = Some 2500\<rparr>)])) = Some 2
   \<and> allowed (fst (checkRateLimit 1000 ''A'' []))
   \<and> retryAfter (fst (checkRateLimit 1000 ''A'' [])) = None"
  using retryAfter_shape [of 1000 "''A''"
      "[(''A'', \<lparr>attempts = 5, lastAttempt = 0, blockedUntil = Some 2500\<rparr>)]"]
    retryAfter_shape [of 1000 "''A''" "[]"]
  by (simp add: checkRateLimit_def ceil_div_def)

section \<open>Properties of the credential verifier\<close>

lemma verifyPassword_resolves:
  "\<exists>b errs. verifyPassword lib env password w =
     (Inr b, w\<lparr>console := console w @ map ConsoleError errs\<rparr>) \<and> length errs \<le> 1 \<and> (b \<longrightarrow> errs = [])"
proof -
  have w: "w = w\<lparr>console := console w @ map ConsoleError []\<rparr>" by simp
  show ?thesis
  proof (cases "verifyPassword lib env password w = (Inr True, w) \<or>
       verifyPassword lib env password w = (Inr False, w)")
    case True
    then show ?thesis using w by (metis list.size(3) zero_le)
  next
    case False
    then obtain msg where "verifyPassword lib env password w = (Inr False, console_error msg w)"
      by (auto simp: verifyPassword_def split: option.splits if_splits sum.splits)
    then have "verifyPassword lib env password w =
        (Inr False, w\<lparr>console := console w @ map ConsoleError [msg]\<rparr>) \<and> length [msg] \<le> 1"
      by (simp add: console_error_def)
    then show ?thesis by blast
  qed
qed

lemma toy_bcrypt_contract: "bcrypt_contract toy_bcrypt"
proof -
  have "toy_salt seed \<noteq> []" for seed
    by (simp add: toy_salt_def)
  then show ?thesis
    by (auto simp: bcrypt_contract_def toy_bcrypt_def)
qed

text \<open>
  C3. \<^verbatim>\<open>verifyPassword\<close> fails closed: when \<^verbatim>\<open>ADMIN_PASSWORD_HASH\<close> is not set (or is
  the empty string), it resolves with \<^verbatim>\<open>false\<close> for every candidate, in every mode, also
  in development mode with a plaintext \<^verbatim>\<open>ADMIN_PASSWORD\<close> equal to the candidate, and
  whatever bcrypt would do; it does not reject, and its one effect is the error line on
  the console.
\<close>

theorem verifyPassword_fails_closed:
  assumes "ADMIN_PASSWORD_HASH env = None \<or> ADMIN_PASSWORD_HASH env = Some []"
  shows "verifyPassword lib env candidate w =
           (Inr False, console_error ''ADMIN_PASSWORD_HASH not configured in environment'' w)"
  using assms by (auto simp: verifyPassword_def)

theorem verifyPassword_fails_closed_witness:
  "verifyPassword toy_bcrypt
      \<lparr>ADMIN_PASSWORD_HASH = None, NODE_ENV = Some ''development'',
       ADMIN_PASSWORD = Some ''Acun97''\<rparr>
      ''Acun97'' \<lparr>rateLimitStore = [], console = [], entropy = 0\<rparr> =
     (Inr False,
      \<lparr>rateLimitStore = [],
       console = [ConsoleError ''ADMIN_PASSWORD_HASH not configured in environment''],
       entropy = 0\<rparr>)
   \<and> fst (verifyPassword failing_bcrypt
      \<lparr>ADMIN_PASSWORD_HASH = Some [], NODE_ENV = Some ''production'',
       ADMIN_PASSWORD = None\<rparr>
      ''Acun97'' \<lparr>rateLimitStore = [], console = [], entropy = 0\<rparr>) = Inr False"
  using verifyPassword_fails_closed [of
      "\<lparr>ADMIN_PASSWORD_HASH = None, NODE_ENV = Some ''development'',
        ADMIN_PASSWORD = Some ''Acun97''\<rparr>"
      toy_bcrypt "''Acun97''" "\<lparr>rateLimitStore = [], console = [], entropy = 0\<rparr>"]
    verifyPassword_fails_closed [of
      "\<lparr>ADMIN_PASSWORD_HASH = Some [], NODE_ENV = Some ''production'',
        ADMIN_PASSWORD = None\<rparr>"
      failing_bcrypt "''Acun97''" "\<lparr>rateLimitStore = [], console = [], entropy = 0\<rparr>"]
  by (simp add: console_error_def)

text \<open>
  C4. When \<^verbatim>\<open>verifyPassword(current)\<close> resolves with \<^verbatim>\<open>false\<close>, \<^verbatim>\<open>changePassword\<close>
  resolves with \<^verbatim>\<open>false\<close> for every proposed password and leaves the module as that
  verification left it: the rate-limit map is untouched, no hash is computed (the random
  source is not drawn from) and no \<^verbatim>\<open>console.log\<close> line is written; at most the
  verification's own \<^verbatim>\<open>console.error\<close> line is added.
\<close>

theorem changePassword_failure_no_effect:
  assumes "fst (verifyPassword lib env current w) = Inr False"
  shows "fst (changePassword lib env current proposed w) = Inr False
         \<and> snd (changePassword lib env current proposed w) = snd (verifyPassword lib env current w)
         \<and> rateLimitStore (snd (changePassword lib env current proposed w)) = rateLimitStore w
         \<and> entropy (snd (changePassword lib env current proposed w)) = entropy w
         \<and> (\<exists>errs. length errs \<le> 1 \<and>
                console (snd (changePassword lib env current proposed w)) =
                  console w @ map ConsoleError errs)"
proof -
  obtain b errs where v: "verifyPassword lib env current w =
      (Inr b, w\<lparr>console := console w @ map ConsoleError errs\<rparr>)" and l: "length errs \<le> 1"
    using verifyPassword_resolves [of lib env current w] by blast
  with assms have b: "b = False" by simp
  have c: "changePassword lib env current proposed w =
      (Inr False, w\<lparr>console := console w @ map ConsoleError errs\<rparr>)"
    by (simp add: changePassword_def v b)
  from l show ?thesis by (simp add: c v) blast
qed

theorem changePassword_failure_no_effect_witness:
  "fst (verifyPassword toy_bcrypt
        \<lparr>ADMIN_PASSWORD_HASH = Some ''$2b$s$s3cret'', NODE_ENV = Some ''production'',
         ADMIN_PASSWORD = None\<rparr>
        ''wrong''
        \<lparr>rateLimitStore = [(''A'', \<lparr>attempts = 2, lastAttempt = 10, blockedUntil = None\<rparr>)],
         console = [], entropy = 1\<rparr>) = Inr False
   \<and> changePassword toy_bcrypt
        \<lparr>ADMIN_PASSWORD_HASH = Some ''$2b$s$s3cret'', NODE_ENV = Some ''production'',
         ADMIN_PASSWORD = None\<rparr>
        ''wrong'' ''n3w-secret''
        \<lparr>rateLimitStore = [(''A'', \<lparr>attempts = 2, lastAttempt = 10, blockedUntil = None\<rparr>)],
         console = [], entropy = 1\<rparr> =
      (Inr False,
       \<lparr>rateLimitStore = [(''A'', \<lparr>attempts = 2, lastAttempt = 10, blockedUntil = None\<rparr>)],
        console = [], entropy = 1\<rparr>)
   \<and> changePassword toy_bcrypt
        \<lparr>ADMIN_PASSWORD_HASH = Some ''$2b$s$s3cret'', NODE_ENV = Some ''production'',
         ADMIN_PASSWORD = None\<rparr>
        ''s3cret'' ''n3w-secret''
        \<lparr>rateLimitStore = [(''A'', \<lparr>attempts = 2, lastAttempt = 10, blockedUntil = None\<rparr>)],
         console = [], entropy = 1\<rparr> =
      (Inr True,
       \<lparr>rateLimitStore = [(''A'', \<lparr>attempts = 2, lastAttempt = 10, blockedUntil = None\<rparr>)],
        console = [ConsoleLog ''New password hash (update in .env.production):'',
                   ConsoleLog ''$2b$ss$n3w-secret''],
        entropy = 2\<rparr>)"
proof -
  let ?env = "\<lparr>ADMIN_PASSWORD_HASH = Some ''$2b$s$s3cret'', NODE_ENV = Some ''production'',
         ADMIN_PASSWORD = None\<rparr>"
  let ?w = "\<lparr>rateLimitStore = [(''A'', \<lparr>attempts = 2, lastAttempt = 10, blockedUntil = None\<rparr>)],
         console = [], entropy = 1\<rparr>"
  have v: "fst (verifyPassword toy_bcrypt ?env ''wrong'' ?w) = Inr False"
    by (simp add: verifyPassword_def toy_bcrypt_def)
  from changePassword_failure_no_effect [OF v, of "''n3w-secret''"] v
  show ?thesis
    by (simp add: changePassword_def verifyPassword_def generatePasswordHash_def
        toy_bcrypt_def toy_salt_def console_log_def)
qed

text \<open>
  C5. Round trip. Under the bcrypt contract, once the hash that
  \<^verbatim>\<open>generatePasswordHash(plaintext)\<close> resolved with is the configured
  \<^verbatim>\<open>ADMIN_PASSWORD_HASH\<close>, \<^verbatim>\<open>verifyPassword(plaintext)\<close> resolves with \<^verbatim>\<open>true\<close>, for
  every plaintext (so for every plaintext of length at least 1), in every mode. The
  hashes of two calls on one plaintext may differ, as the concrete instance shows.
\<close>

theorem hash_verify_roundtrip:
  assumes "bcrypt_contract lib"
    and "fst (generatePasswordHash lib plaintext w) = Inr h"
    and "ADMIN_PASSWORD_HASH env = Some h"
  shows "fst (verifyPassword lib env plaintext w') = Inr True"
proof -
  from assms(2) have "bcrypt_hash lib (entropy w) plaintext 10 = Inr h"
    by (simp add: generatePasswordHash_def)
  with assms(1) have "h \<noteq> []" and "bcrypt_compare lib plaintext h = Inr True"
    unfolding bcrypt_contract_def by blast+
  with assms(3) show ?thesis by (simp add: verifyPassword_def)
qed

theorem hash_verify_roundtrip_witness:
  "bcrypt_contract toy_bcrypt
   \<and> fst (generatePasswordHash toy_bcrypt ''s3cret''
        \<lparr>rateLimitStore = [], console = [], entropy = 0\<rparr>) = Inr ''$2b$s$s3cret''
   \<and> fst (generatePasswordHash toy_bcrypt ''s3cret''
        \<lparr>rateLimitStore = [], console = [], entropy = 1\<rparr>) = Inr ''$2b$ss$s3cret''
   \<and> fst (verifyPassword toy_bcrypt
        \<lparr>ADMIN_PASSWORD_HASH = Some ''$2b$s$s3cret'', NODE_ENV = Some ''production'',
         ADMIN_PASSWORD = None\<rparr>
        ''s3cret'' \<lparr>rateLimitStore = [], console = [], entropy = 1\<rparr>) = Inr True
   \<and> fst (verifyPassword toy_bcrypt
        \<lparr>ADMIN_PASSWORD_HASH = Some ''$2b$s$s3cret'', NODE_ENV = Some ''production'',
         ADMIN_PASSWORD = None\<rparr>
        ''wrong'' \<lparr>rateLimitStore = [], console = [], entropy = 1\<rparr>) = Inr False"
proof -
  have g: "fst (generatePasswordHash toy_bcrypt ''s3cret''
        \<lparr>rateLimitStore = [], console = [], entropy = 0\<rparr>) = Inr ''$2b$s$s3cret''"
    by (simp add: generatePasswordHash_def toy_bcrypt_def toy_salt_def)
  have e: "ADMIN_PASSWORD_HASH \<lparr>ADMIN_PASSWORD_HASH = Some ''$2b$s$s3cret'',
      NODE_ENV = Some ''production'', ADMIN_PASSWORD = None\<rparr> = Some ''$2b$s$s3cret''"
    by simp
  from hash_verify_roundtrip [OF toy_bcrypt_contract g e,
      of "\<lparr>rateLimitStore = [], console = [], entropy = 1\<rparr>"]
  show ?thesis
    using toy_bcrypt_contract g
    by (simp add: generatePasswordHash_def verifyPassword_def toy_bcrypt_def toy_salt_def)
qed

end
